theory Spec2Isabelle
  imports Main
begin

section \<open>Bytes and Python values\<close>

text \<open>
  A file is the list of its bytes, and a Python \<open>str\<close> or \<open>bytes\<close> value is a list of
  characters (\<open>char\<close> is a byte). Python integers are \<open>int\<close>.

  The scanner \<open>index\<close> opens its file with \<open>'rb'\<close> and reads bytes. \<open>simplecount\<close> and
  \<open>MolFileIndex\<close> open theirs in text mode: the platform's codec decodes the bytes, a
  carriage return is translated, positions and counts of \<open>read\<close> are in characters, and
  bytes that do not decode raise \<open>UnicodeDecodeError\<close>. The model reads bytes there too.
  That is what the source does on content of ASCII bytes (\<open>ascii_text\<close>: every
  ASCII-compatible codec decodes it, one character per byte) as far as lines are counted,
  and on content of ASCII bytes without carriage return (\<open>plain_text\<close>) as far as
  records are read through \<open>self.f\<close>. A general statement about counted lines or about
  bytes read carries the matching hypothesis.
\<close>

type_synonym bytes = string

definition ascii_text :: "bytes \<Rightarrow> bool" where
  "ascii_text s = list_all (\<lambda>c. (of_char c :: nat) < 128) s"

definition plain_text :: "bytes \<Rightarrow> bool" where
  "plain_text s = list_all (\<lambda>c. (of_char c :: nat) < 128 \<and> c \<noteq> CHR 0x0D) s"

abbreviation LF :: char where
  "LF \<equiv> CHR 0x0A"

abbreviation CR :: char where
  "CR \<equiv> CHR 0x0D"

datatype error =
    IndexError
  | ValueError
  | AttributeError
  | NameError
  | IndexOutOfRange
  | ColumnCountMismatch

text \<open>\<open>buf[i:i+len(word)] == word\<close>, with \<open>buf\<close> the rest of a buffer from \<open>i\<close> on.\<close>

definition startswith :: "bytes \<Rightarrow> bytes \<Rightarrow> bool" where
  "startswith buf word = (take (length word) buf = word)"

text \<open>
  \<open>buffer.find(word, start)\<close>: the lowest index at or after \<open>start\<close> where \<open>word\<close> occurs
  in \<open>buffer\<close>, or \<open>-1\<close>. \<open>find_at word rest k\<close> searches \<open>rest = buffer[k:]\<close>.
\<close>

fun find_at :: "bytes \<Rightarrow> bytes \<Rightarrow> nat \<Rightarrow> int" where
  "find_at word [] k = (if word = [] then int k else - 1)"
| "find_at word (c # cs) k =
     (if startswith (c # cs) word then int k else find_at word cs (Suc k))"

definition py_find :: "bytes \<Rightarrow> bytes \<Rightarrow> int \<Rightarrow> int" where
  "py_find buffer word start =
     (let n = int (length buffer);
          s = (if start < 0 then max 0 (n + start) else start)
      in if n < s then - 1 else find_at word (drop (nat s) buffer) (nat s))"

lemma find_at_range:
  "find_at word cs k = - 1 \<or>
   (int k \<le> find_at word cs k \<and> find_at word cs k \<le> int k + int (length cs))"
proof (induction cs arbitrary: k)
  case Nil
  then show ?case by simp
next
  case (Cons c cs)
  from Cons.IH [of "Suc k"] show ?case by auto
qed

lemma py_find_range:
  "py_find buffer word start = - 1 \<or>
   (0 \<le> py_find buffer word start \<and> start \<le> py_find buffer word start \<and>
    py_find buffer word start \<le> int (length buffer))"
  using find_at_range [of word
      "drop (nat (if start < 0 then max 0 (int (length buffer) + start) else start)) buffer"
      "nat (if start < 0 then max 0 (int (length buffer) + start) else start)"]
  by (auto simp: py_find_def Let_def split: if_splits)

section \<open>The scanner \<open>index(fname, word)\<close>\<close>

text \<open>
  The inner loop of \<open>index\<close> over one buffer:
  \<^verbatim>\<open>
  pos = buffer.find(word)
  while pos != -1:
      yield f.tell() - (len(buffer) - pos)
      pos = buffer.find(word, pos+1)
  \<close>
  \<open>tell\<close> is the position of the handle after the read that filled \<open>buffer\<close>.
\<close>

function block_yields :: "bytes \<Rightarrow> bytes \<Rightarrow> int \<Rightarrow> int \<Rightarrow> int list" where
  "block_yields buffer word tell pos =
     (if pos \<noteq> - 1
      then (tell - (int (length buffer) - pos)) #
           block_yields buffer word tell (py_find buffer word (pos + 1))
      else [])"
  by pat_completeness auto
termination
proof (relation "measure (\<lambda>(buffer, word, tell, pos).
          if pos = - 1 then 0 else Suc (nat (int (length buffer) + 2 - pos)))")
  show "wf (measure (\<lambda>(buffer, word, tell, pos).
          if pos = - 1 then 0 else Suc (nat (int (length buffer) + 2 - pos))))"
    by simp
next
  fix buffer word :: bytes and tell pos :: int
  assume "pos \<noteq> - 1"
  then show "((buffer, word, tell, py_find buffer word (pos + 1)), (buffer, word, tell, pos))
        \<in> measure (\<lambda>(buffer, word, tell, pos).
          if pos = - 1 then 0 else Suc (nat (int (length buffer) + 2 - pos)))"
    using py_find_range [of buffer word "pos + 1"] by auto
qed

declare block_yields.simps [simp del]

text \<open>
  The outer loop. The state is the position \<open>tell\<close> of the handle and the offsets yielded
  so far; \<open>bsize\<close> is the source's local constant \<open>2**16\<close>, taken as a parameter so that
  other block sizes can be compared. A run that never reaches the \<open>break\<close> has the value
  \<open>None\<close>.
  \<^verbatim>\<open>
  overlap = len(word) - 1
  while True:
      if (f.tell() >= overlap and f.tell() < fsize):
          f.seek(f.tell() - overlap)
      buffer = f.read(bsize)
      if buffer: ... the inner loop ...
      else: break
  \<close>
\<close>

partial_function (option) index_loop ::
  "nat \<Rightarrow> bytes \<Rightarrow> bytes \<Rightarrow> int \<Rightarrow> int list \<Rightarrow> int list option" where
  "index_loop bsize fname word tell yielded =
     (let fsize = int (length fname);
          overlap = int (length word) - 1;
          tell1 = (if overlap \<le> tell \<and> tell < fsize then tell - overlap else tell);
          buffer = take bsize (drop (nat tell1) fname);
          tell2 = tell1 + int (length buffer)
      in if buffer \<noteq> []
         then index_loop bsize fname word tell2
                (yielded @ block_yields buffer word tell2 (py_find buffer word 0))
         else Some yielded)"

declare index_loop.simps [code]

definition index_bs :: "nat \<Rightarrow> bytes \<Rightarrow> bytes \<Rightarrow> int list option" where
  "index_bs bsize fname word = index_loop bsize fname word 0 []"

definition index :: "bytes \<Rightarrow> bytes \<Rightarrow> int list option" where
  "index fname word = index_bs (2 ^ 16) fname word"

text \<open>
  The whole file searched in one buffer: the inner loop run once on all of the file, the
  handle standing at its end.
\<close>

definition single_buffer_scan :: "bytes \<Rightarrow> bytes \<Rightarrow> int list" where
  "single_buffer_scan fname word =
     block_yields fname word (int (length fname)) (py_find fname word 0)"

text \<open>
  The positions, counted from \<open>k\<close>, at which \<open>word\<close> starts in a byte list: every
  occurrence, also one that overlaps the occurrence before it.
\<close>

fun occs :: "bytes \<Rightarrow> bytes \<Rightarrow> nat \<Rightarrow> nat list" where
  "occs word [] k = []"
| "occs word (c # cs) k =
     (if startswith (c # cs) word then k # occs word cs (Suc k) else occs word cs (Suc k))"

text \<open>
  The non-overlapping occurrences of \<open>word\<close>, as a contract of the scanner words them:
  the bytes are searched from left to right and, behind an occurrence found, the search goes
  on after the last byte of that occurrence (\<open>skip\<close> counts the bytes still covered by it).
\<close>

fun nonoverlapping_occs :: "bytes \<Rightarrow> bytes \<Rightarrow> nat \<Rightarrow> nat \<Rightarrow> nat list" where
  "nonoverlapping_occs word [] k skip = []"
| "nonoverlapping_occs word (c # cs) k skip =
     (if skip = 0 \<and> startswith (c # cs) word
      then k # nonoverlapping_occs word cs (Suc k) (length word - 1)
      else nonoverlapping_occs word cs (Suc k) (skip - 1))"

section \<open>The raw store\<close>

text \<open>
  Modelled from the spec: the module \<open>raw\<close> (\<open>raw.MakeStore\<close>, \<open>raw.RawStore\<close>, its
  \<open>N\<close>, \<open>get\<close> and \<open>putRow\<close>) is imported by \<open>MolFileIndex.py\<close> and is not among the
  sources. The spec gives a store an ordered schema of fixed-width columns and a row count
  fixed at creation; creation zero-fills every row; \<open>get\<close> fails with \<open>IndexOutOfRange\<close>
  outside \<open>[0, row_count)\<close>; \<open>put\<close> fails with \<open>IndexOutOfRange\<close> or
  \<open>ColumnCountMismatch\<close> and otherwise overwrites the row. The directory of a new store is
  taken to be fresh. A cell of a column of width \<open>w\<close> bytes holds a value below
  \<open>2 ^ (8 * w)\<close>: a value written is kept as it is when it fits (the round trip of the
  spec) and modulo \<open>2 ^ (8 * w)\<close> otherwise, its low-order bytes.
\<close>

datatype dtype = uint8 | uint16 | uint32 | uint64

fun itemsize :: "dtype \<Rightarrow> nat" where
  "itemsize uint8 = 1"
| "itemsize uint16 = 2"
| "itemsize uint32 = 4"
| "itemsize uint64 = 8"

record RawStore =
  columns :: "(string \<times> dtype) list"
  rows :: "nat list list"

definition MakeStore :: "(string \<times> dtype) list \<Rightarrow> int \<Rightarrow> RawStore" where
  "MakeStore cols n = \<lparr>columns = cols, rows = replicate (nat n) (map (\<lambda>c. 0) cols)\<rparr>"

definition RawStore_N :: "RawStore \<Rightarrow> int" where
  "RawStore_N st = int (length (rows st))"

definition RawStore_get :: "RawStore \<Rightarrow> int \<Rightarrow> error + nat list" where
  "RawStore_get st idx =
     (if 0 \<le> idx \<and> idx < RawStore_N st then Inr (rows st ! nat idx) else Inl IndexOutOfRange)"

definition store_value :: "dtype \<Rightarrow> int \<Rightarrow> nat" where
  "store_value d v = nat (v mod 2 ^ (8 * itemsize d))"

definition RawStore_putRow :: "RawStore \<Rightarrow> int \<Rightarrow> int list \<Rightarrow> error + RawStore" where
  "RawStore_putRow st idx row =
     (if \<not> (0 \<le> idx \<and> idx < RawStore_N st) then Inl IndexOutOfRange
      else if length row \<noteq> length (columns st) then Inl ColumnCountMismatch
      else Inr (st\<lparr>rows := (rows st)
                  [nat idx := map2 (\<lambda>c v. store_value (snd c) v) (columns st) row]\<rparr>))"

section \<open>Python strings and lists\<close>

text \<open>
  A column selector (\<open>smilesColumn\<close>, \<open>nameColumn\<close>) is an \<open>int\<close> or a \<open>str\<close>; what
  \<open>_get\<close> returns is a \<open>str\<close>, or the list \<open>buf.split(sep)\<close> when a separator is set.
\<close>

datatype column = ColInt int | ColStr bytes

datatype rowval = Raw bytes | Fields "bytes list"

text \<open>\<open>buf.split(sep)\<close> for a separator that is not empty; \<open>cur\<close> is the field being read.\<close>

fun py_split :: "bytes \<Rightarrow> bytes \<Rightarrow> bytes \<Rightarrow> bytes list" where
  "py_split sp cur [] = [cur]"
| "py_split sp cur (c # cs) =
     (if sp \<noteq> [] \<and> startswith (c # cs) sp
      then cur # py_split sp [] (drop (length sp) (c # cs))
      else py_split sp (cur @ [c]) cs)"

definition py_len :: "rowval \<Rightarrow> int" where
  "py_len r = (case r of Raw s \<Rightarrow> int (length s) | Fields l \<Rightarrow> int (length l))"

text \<open>\<open>r[i]\<close>: a negative index counts from the end, an index out of range raises.\<close>

definition py_getitem :: "rowval \<Rightarrow> int \<Rightarrow> error + rowval" where
  "py_getitem r i =
     (let n = py_len r; j = (if i < 0 then n + i else i)
      in if 0 \<le> j \<and> j < n
         then (case r of Raw s \<Rightarrow> Inr (Raw [s ! nat j]) | Fields l \<Rightarrow> Inr (Raw (l ! nat j)))
         else Inl IndexError)"

text \<open>
  \<open>f.seek(start, 0); f.read(n)\<close> on \<open>plain_text\<close> content, where a character of the
  text-mode handle is a byte of the file: \<open>n\<close> bytes from \<open>start\<close> on, fewer at the end
  of the file; a negative \<open>n\<close> reads to the end of the file. On other content the handle
  of the source decodes and translates what it reads, which this function does not.
\<close>

definition py_read :: "bytes \<Rightarrow> nat \<Rightarrow> int \<Rightarrow> bytes" where
  "py_read content start n =
     (if n < 0 then drop start content else take (nat n) (drop start content))"

text \<open>
  The white space that \<open>str.strip()\<close> and \<open>int()\<close> remove, among ASCII characters; the
  white space beyond ASCII (such as U+0085 and U+00A0) is no byte of \<open>ascii_text\<close>.
\<close>

definition is_space :: "char \<Rightarrow> bool" where
  "is_space c = (c \<in> set [CHR 0x09, LF, CHR 0x0B, CHR 0x0C, CR,
                           CHR 0x1C, CHR 0x1D, CHR 0x1E, CHR 0x1F, CHR 0x20])"

definition py_strip :: "bytes \<Rightarrow> bytes" where
  "py_strip s = rev (dropWhile is_space (rev (dropWhile is_space s)))"

definition is_digit :: "char \<Rightarrow> bool" where
  "is_digit c = (48 \<le> (of_char c :: nat) \<and> (of_char c :: nat) \<le> 57)"

definition digit_value :: "char \<Rightarrow> int" where
  "digit_value c = int (of_char c) - 48"

text \<open>
  \<open>int(s)\<close> for a \<open>str\<close>: white space around, a sign, decimal digits, single underscores
  between digits; \<open>None\<close> stands for the \<open>ValueError\<close>.
\<close>

fun digits_value :: "bytes \<Rightarrow> bool \<Rightarrow> int \<Rightarrow> int option" where
  "digits_value [] prev acc = (if prev then Some acc else None)"
| "digits_value (c # cs) prev acc =
     (if is_digit c then digits_value cs True (10 * acc + digit_value c)
      else if c = CHR ''_'' \<and> prev \<and> cs \<noteq> [] \<and> is_digit (hd cs)
           then digits_value cs False acc
      else None)"

definition py_int :: "bytes \<Rightarrow> int option" where
  "py_int s =
     (case py_strip s of
        [] \<Rightarrow> None
      | c # cs \<Rightarrow>
          if c = CHR ''-'' then map_option uminus (digits_value cs False 0)
          else if c = CHR ''+'' then digits_value cs False 0
          else digits_value (c # cs) False 0)"

text \<open>\<open>"column_%d" % x\<close> for \<open>x\<close> in \<open>range(n)\<close>.\<close>

fun dec :: "nat \<Rightarrow> bytes" where
  "dec n = (if n < 10 then [char_of (48 + n)] else dec (n div 10) @ [char_of (48 + n mod 10)])"

declare dec.simps [simp del]

definition column_names :: "nat \<Rightarrow> bytes list" where
  "column_names n = map (\<lambda>x. ''column_'' @ dec x) [0..<n]"

text \<open>\<open>colnames.index(x)\<close>, of a list or of a \<open>str\<close>; both raise \<open>ValueError\<close> when absent.\<close>

fun list_index :: "bytes list \<Rightarrow> bytes \<Rightarrow> int \<Rightarrow> int option" where
  "list_index [] x k = None"
| "list_index (y # ys) x k = (if y = x then Some k else list_index ys x (k + 1))"

definition py_index :: "rowval \<Rightarrow> bytes \<Rightarrow> error + int" where
  "py_index r x =
     (case r of
        Fields l \<Rightarrow> (case list_index l x 0 of None \<Rightarrow> Inl ValueError | Some i \<Rightarrow> Inr i)
      | Raw s \<Rightarrow> (let p = py_find s x 0 in if p = - 1 then Inl ValueError else Inr p))"

section \<open>The class \<open>MolFileIndex\<close>\<close>

text \<open>
  The object with the attributes \<open>__init__\<close> and the methods read. \<open>filename\<close> holds the
  content of the indexed file, which the handle \<open>self.f\<close> reads; every read seeks first, so
  the position of the handle is no part of the state. An attribute that \<open>__init__\<close> may leave
  unassigned is an option: \<open>smilesColIdx\<close>, \<open>nameidx\<close>, and \<open>nameGetter\<close> for
  \<open>self._nameGetter\<close>, which \<open>getName\<close> reads (\<open>None\<close>: no such attribute).
\<close>

record MolFileIndex =
  db :: RawStore
  filename :: bytes
  hasHeader :: bool
  smilesColumn :: column
  nameColumn :: column
  nameFxn :: "(rowval \<Rightarrow> error + rowval) option"
  N :: int
  sep :: "bytes option"
  colnames :: rowval
  smilesColIdx :: "int option"
  nameidx :: "int option"
  nameGetter :: "(rowval \<Rightarrow> error + rowval) option option"

definition first_column :: "nat list \<Rightarrow> error + nat" where
  "first_column r = (case r of [] \<Rightarrow> Inl IndexError | v # vs \<Rightarrow> Inr v)"

text \<open>
  \<^verbatim>\<open>
  def _get(self, idx):
      if idx is None: idx = 0
      elif self.hasHeader: idx += 1
      start = self.db.get(idx)[0]
      end = self.db.get(idx+1)[0]
      self.f.seek(start,0)
      buf = self.f.read(end-start-1)
      if self.sep: return buf.split(self.sep)
      return buf
  \<close>
\<close>

definition MolFileIndex__get :: "MolFileIndex \<Rightarrow> int option \<Rightarrow> error + rowval" where
  "MolFileIndex__get self idx =
     (let i = (case idx of None \<Rightarrow> 0 | Some j \<Rightarrow> if hasHeader self then j + 1 else j) in
      case RawStore_get (db self) i of Inl e \<Rightarrow> Inl e | Inr r1 \<Rightarrow>
      (case first_column r1 of Inl e \<Rightarrow> Inl e | Inr start \<Rightarrow>
      (case RawStore_get (db self) (i + 1) of Inl e \<Rightarrow> Inl e | Inr r2 \<Rightarrow>
      (case first_column r2 of Inl e \<Rightarrow> Inl e | Inr end \<Rightarrow>
         (let buf = py_read (filename self) start (int end - int start - 1) in
          case sep self of
            None \<Rightarrow> Inr (Raw buf)
          | Some sp \<Rightarrow> if sp \<noteq> [] then Inr (Fields (py_split sp [] buf)) else Inr (Raw buf))))))"

text \<open>
  The \<open>try: int(column) except ValueError: colnames.index(column)\<close> of \<open>__init__\<close>, with
  its test for \<open>-1\<close>, written twice in the source, for the smiles and for the name column.
\<close>

definition resolve_column :: "column \<Rightarrow> rowval \<Rightarrow> error + int" where
  "resolve_column col names =
     (case col of
        ColInt i \<Rightarrow> Inr i
      | ColStr s \<Rightarrow>
          (case py_int s of
             Some i \<Rightarrow> Inr i
           | None \<Rightarrow>
               (case py_index names s of
                  Inl e \<Rightarrow> Inl e
                | Inr i \<Rightarrow> if i = - 1 then Inl IndexError else Inr i)))"

text \<open>
  \<open>if self.smilesColumn != -1: ...\<close>: the attribute \<open>smilesColIdx\<close> is assigned in this
  branch only, and the branch ends in the test \<open>len(row) <= self.smilesColIdx\<close>.
\<close>

definition init_smiles :: "MolFileIndex \<Rightarrow> rowval \<Rightarrow> error + MolFileIndex" where
  "init_smiles self row =
     (if smilesColumn self \<noteq> ColInt (- 1)
      then (case resolve_column (smilesColumn self) (colnames self) of
              Inl e \<Rightarrow> Inl e
            | Inr i \<Rightarrow>
                if py_len row \<le> i then Inl IndexError
                else Inr (self\<lparr>smilesColIdx := Some i\<rparr>))
      else Inr self)"

text \<open>
  \<open>if self.nameColumn != -1: ...\<close>: the message of its \<open>IndexError\<close> reads
  \<open>self.smilesColIdx\<close>, which raises \<open>AttributeError\<close> when that attribute is unassigned.
\<close>

definition init_name :: "MolFileIndex \<Rightarrow> rowval \<Rightarrow> error + MolFileIndex" where
  "init_name self row =
     (if nameColumn self \<noteq> ColInt (- 1)
      then (case resolve_column (nameColumn self) (colnames self) of
              Inl e \<Rightarrow> Inl e
            | Inr i \<Rightarrow>
                if py_len row \<le> i
                then (case smilesColIdx self of
                        None \<Rightarrow> Inl AttributeError
                      | Some c \<Rightarrow> Inl IndexError)
                else Inr (self\<lparr>nameidx := Some i\<rparr>))
      else Inr self)"

text \<open>
  \<open>MolFileIndex.__init__(filename, indexDirectory, smilesColumn, nameColumn, hasHeader,
  sep, nameFxn)\<close>; \<open>indexDirectory\<close> is the store that \<open>raw.RawStore(indexDirectory)\<close>
  opens.
\<close>

definition MolFileIndex_init ::
  "bytes \<Rightarrow> RawStore \<Rightarrow> column \<Rightarrow> column \<Rightarrow> bool \<Rightarrow> bytes option \<Rightarrow>
   (rowval \<Rightarrow> error + rowval) option \<Rightarrow> error + MolFileIndex" where
  "MolFileIndex_init fname indexDirectory smilesCol nameCol header sp nfxn =
     (let self0 = \<lparr>db = indexDirectory, filename = fname, hasHeader = header,
                   smilesColumn = smilesCol, nameColumn = nameCol, nameFxn = nfxn,
                   N = (if header then RawStore_N indexDirectory - 3
                        else RawStore_N indexDirectory - 2),
                   sep = sp, colnames = Fields [], smilesColIdx = None, nameidx = None,
                   nameGetter = None\<rparr>
      in case (if header then MolFileIndex__get self0 None
               else (case MolFileIndex__get self0 (Some 0) of
                       Inl e \<Rightarrow> Inl e
                     | Inr r \<Rightarrow> Inr (Fields (column_names (nat (py_len r)))))) of
           Inl e \<Rightarrow> Inl e
         | Inr names \<Rightarrow>
             (let self1 = self0\<lparr>colnames := names\<rparr>
              in case MolFileIndex__get self1 (Some (if header then 1 else 0)) of
                   Inl e \<Rightarrow> Inl e
                 | Inr row \<Rightarrow>
                     (case init_smiles self1 row of
                        Inl e \<Rightarrow> Inl e
                      | Inr self2 \<Rightarrow> init_name self2 row)))"

definition MolFileIndex_header :: "MolFileIndex \<Rightarrow> error + rowval" where
  "MolFileIndex_header self =
     (if hasHeader self then MolFileIndex__get self None else Inl ValueError)"

text \<open>\<open>get\<close> adds one to \<open>idx\<close> under a header and then calls \<open>_get\<close>, which adds one too.\<close>

definition MolFileIndex_get :: "MolFileIndex \<Rightarrow> int \<Rightarrow> error + rowval" where
  "MolFileIndex_get self idx =
     MolFileIndex__get self (Some (if hasHeader self then idx + 1 else idx))"

text \<open>
  \<^verbatim>\<open>
  def getMol(self, idx):
      if self.smilesColIdx != -1:
          return self._get(idx)[self.smilesColIdx]
      return self._get(idx)
  \<close>
\<close>

definition MolFileIndex_getMol :: "MolFileIndex \<Rightarrow> int \<Rightarrow> error + rowval" where
  "MolFileIndex_getMol self idx =
     (case smilesColIdx self of
        None \<Rightarrow> Inl AttributeError
      | Some c \<Rightarrow>
          if c \<noteq> - 1
          then (case MolFileIndex__get self (Some idx) of
                  Inl e \<Rightarrow> Inl e
                | Inr r \<Rightarrow> py_getitem r c)
          else MolFileIndex__get self (Some idx))"

text \<open>
  \<^verbatim>\<open>
  def getName(self, idx):
      if self.nameidx == -1:
          if self._nameGetter:
              return self._nameGetter(self._get(idx))
          raise ValueError("SmilesIndex does not have a name column or a name retriever")
      return self._get(idx)[self.nameidx]
  \<close>
\<close>

definition MolFileIndex_getName :: "MolFileIndex \<Rightarrow> int \<Rightarrow> error + rowval" where
  "MolFileIndex_getName self idx =
     (case nameidx self of
        None \<Rightarrow> Inl AttributeError
      | Some k \<Rightarrow>
          if k = - 1
          then (case nameGetter self of
                  None \<Rightarrow> Inl AttributeError
                | Some None \<Rightarrow> Inl ValueError
                | Some (Some g) \<Rightarrow>
                    (case MolFileIndex__get self (Some idx) of
                       Inl e \<Rightarrow> Inl e
                     | Inr r \<Rightarrow> g r))
          else (case MolFileIndex__get self (Some idx) of
                  Inl e \<Rightarrow> Inl e
                | Inr r \<Rightarrow> py_getitem r k))"

section \<open>The index builders\<close>

text \<open>
  \<open>simplecount\<close> counts the lines that iterating over the text file gives: a line ends at
  \<open>\n\<close>, \<open>\r\<close> or \<open>\r\n\<close>, and bytes after the last line end are one more line
  (\<open>pending\<close>: the line being read has a byte). This is the source's count on content
  that its text-mode handle decodes, \<open>ascii_text\<close> under every ASCII-compatible codec;
  on bytes that do not decode the source raises \<open>UnicodeDecodeError\<close> here, before a
  builder creates its store, and that path is not modelled.
\<close>

fun count_lines :: "bool \<Rightarrow> bytes \<Rightarrow> nat" where
  "count_lines pending [] = (if pending then 1 else 0)"
| "count_lines pending (c # cs) =
     (if c = LF then Suc (count_lines False cs)
      else if c = CR
           then (case cs of
                   [] \<Rightarrow> 1
                 | d # ds \<Rightarrow> if d = LF then Suc (count_lines False ds)
                             else Suc (count_lines False cs))
           else count_lines True cs)"

definition simplecount :: "bytes \<Rightarrow> int" where
  "simplecount fname = int (count_lines False fname)"

text \<open>The \<open>if N < 2**8: ... elif ... else\<close> chain that both builders run on \<open>N\<close>.\<close>

definition select_dtype :: "int \<Rightarrow> dtype" where
  "select_dtype n =
     (if n < 2 ^ 8 then uint8
      else if n < 2 ^ 16 then uint16
      else if n < 2 ^ 32 then uint32
      else uint64)"

text \<open>
  \<open>for i,pos in enumerate(index(filename, b"\n")): db.putRow(i+1, [pos+1])\<close>; the store
  written so far stays on disk when a \<open>putRow\<close> raises.
\<close>

fun put_offsets :: "RawStore \<Rightarrow> int \<Rightarrow> int list \<Rightarrow> RawStore \<times> error option" where
  "put_offsets st i [] = (st, None)"
| "put_offsets st i (pos # rest) =
     (case RawStore_putRow st (i + 1) [pos + 1] of
        Inl e \<Rightarrow> (st, Some e)
      | Inr st' \<Rightarrow> put_offsets st' (i + 1) rest)"

text \<open>
  A builder returns the store it leaves in \<open>dbdir\<close> together with the object it returns or
  the exception it raises; \<open>None\<close> is a scan that never ends.
\<close>

definition MakeSmilesIndex ::
  "bytes \<Rightarrow> bool \<Rightarrow> column \<Rightarrow> column \<Rightarrow> bytes option \<Rightarrow>
   (RawStore \<times> (error + MolFileIndex)) option" where
  "MakeSmilesIndex fname header smilesCol nameCol sp =
     (let n = simplecount fname;
          dtype = select_dtype n;
          db0 = MakeStore [(''index'', dtype)] (n + 1)
      in case RawStore_putRow db0 0 [0] of
           Inl e \<Rightarrow> Some (db0, Inl e)
         | Inr db1 \<Rightarrow>
             (case index fname [LF] of
                None \<Rightarrow> None
              | Some offsets \<Rightarrow>
                  (case put_offsets db1 0 offsets of
                     (db2, Some e) \<Rightarrow> Some (db2, Inl e)
                   | (db2, None) \<Rightarrow>
                       Some (db2, MolFileIndex_init fname db2 smilesCol nameCol header sp None))))"

text \<open>\<open>SDFNameGetter(buffer) = buffer.split("\n")[0].strip()\<close>.\<close>

definition SDFNameGetter :: "rowval \<Rightarrow> error + rowval" where
  "SDFNameGetter buffer =
     (case buffer of
        Raw s \<Rightarrow> (case py_split [LF] [] s of
                     [] \<Rightarrow> Inl IndexError
                   | l # ls \<Rightarrow> Inr (Raw (py_strip l)))
      | Fields l \<Rightarrow> Inl AttributeError)"

text \<open>
  \<open>MakeSDFIndex\<close> scans first and creates the store then. Its loop
  \<open>for i, idx in enumerate(indices): db.putRow(i+1, [pos+1])\<close> reads \<open>pos\<close>, a name bound
  neither in the function nor in the module: the first round raises \<open>NameError\<close>.
\<close>

definition MakeSDFIndex :: "bytes \<Rightarrow> (RawStore \<times> (error + MolFileIndex)) option" where
  "MakeSDFIndex fname =
     (let n = simplecount fname;
          dtype = select_dtype n
      in case index fname ''$$$$\<newline>'' of
           None \<Rightarrow> None
         | Some indices \<Rightarrow>
             (let db0 = MakeStore [(''index'', dtype)] (n + 1)
              in case RawStore_putRow db0 0 [0] of
                   Inl e \<Rightarrow> Some (db0, Inl e)
                 | Inr db1 \<Rightarrow>
                     (case indices of
                        [] \<Rightarrow> Some (db1, MolFileIndex_init fname db1 (ColInt (- 1)) (ColInt (- 1))
                                           False None (Some SDFNameGetter))
                      | idx # rest \<Rightarrow> Some (db1, Inl NameError))))"

section \<open>The inner loop finds every occurrence in its buffer\<close>

lemma occs_short: "length cs < length word \<Longrightarrow> occs word cs k = []"
  by (induction cs arbitrary: k) (auto simp: startswith_def)

lemma find_at_none: "word \<noteq> [] \<Longrightarrow> find_at word cs k = - 1 \<Longrightarrow> occs word cs k = []"
  by (induction cs arbitrary: k) (auto split: if_splits)

lemma find_at_some:
  "word \<noteq> [] \<Longrightarrow> find_at word cs k = int p \<Longrightarrow>
   k \<le> p \<and> p < k + length cs \<and> occs word cs k = p # occs word (drop (Suc p - k) cs) (Suc p)"
proof (induction cs arbitrary: k)
  case Nil
  then show ?case by simp
next
  case (Cons c cs)
  show ?case
  proof (cases "startswith (c # cs) word")
    case True
    with Cons.prems show ?thesis by simp
  next
    case False
    with Cons.prems have f: "find_at word cs (Suc k) = int p" by simp
    from Cons.IH [OF Cons.prems(1) f]
    have ih: "Suc k \<le> p" "p < Suc k + length cs"
      "occs word cs (Suc k) = p # occs word (drop (Suc p - Suc k) cs) (Suc p)" by auto
    from ih(1) have "Suc p - k = Suc (p - k)" by arith
    with ih False show ?thesis by simp
  qed
qed

lemma block_yields_occs_from:
  "word \<noteq> [] \<Longrightarrow> s \<le> length buffer \<Longrightarrow>
   block_yields buffer word tell (find_at word (drop s buffer) s) =
   map (\<lambda>p. tell - (int (length buffer) - int p)) (occs word (drop s buffer) s)"
proof (induction "length buffer - s" arbitrary: s rule: less_induct)
  case less
  show ?case
  proof (cases "find_at word (drop s buffer) s = - 1")
    case True
    with less.prems show ?thesis
      by (simp add: find_at_none block_yields.simps)
  next
    case False
    with find_at_range [of word "drop s buffer" s]
    have "0 \<le> find_at word (drop s buffer) s" by auto
    then obtain p where p: "find_at word (drop s buffer) s = int p"
      by (metis nat_0_le)
    from find_at_some [OF less.prems(1) p] less.prems(2)
    have b: "s \<le> p" "p < length buffer"
      and o: "occs word (drop s buffer) s = p # occs word (drop (Suc p) buffer) (Suc p)"
      by auto
    have nx: "py_find buffer word (int p + 1) = find_at word (drop (Suc p) buffer) (Suc p)"
      using b by (simp add: py_find_def Let_def nat_add_distrib)
    have ih: "block_yields buffer word tell (find_at word (drop (Suc p) buffer) (Suc p)) =
        map (\<lambda>p. tell - (int (length buffer) - int p)) (occs word (drop (Suc p) buffer) (Suc p))"
      using b less.prems(1) by (intro less.hyps) auto
    show ?thesis
      by (subst block_yields.simps) (simp add: p o nx ih)
  qed
qed

lemma block_yields_occs:
  "word \<noteq> [] \<Longrightarrow>
   block_yields buffer word tell (py_find buffer word 0) =
   map (\<lambda>p. tell - (int (length buffer) - int p)) (occs word buffer 0)"
  using block_yields_occs_from [of word 0 buffer tell] by (simp add: py_find_def)

lemma single_buffer_scan_occs:
  "word \<noteq> [] \<Longrightarrow> single_buffer_scan fname word = map int (occs word fname 0)"
  by (simp add: single_buffer_scan_def block_yields_occs)

section \<open>The block scan against the single buffer\<close>

lemma startswith_take:
  "length word \<le> n \<Longrightarrow> startswith (take n cs) word = startswith cs word"
  by (simp add: startswith_def min_def)

text \<open>
  A list cut at \<open>j\<close>: an occurrence starts before \<open>j\<close> and lies in the first
  \<open>j + len(word) - 1\<close> bytes, or starts at \<open>j\<close> or later.
\<close>

lemma occs_split:
  "word \<noteq> [] \<Longrightarrow>
   occs word xs k = occs word (take (j + (length word - 1)) xs) k @ occs word (drop j xs) (k + j)"
proof (induction j arbitrary: xs k)
  case 0
  then have "length (take (length word - 1) xs) < length word"
    by (cases word) auto
  then show ?case by (simp add: occs_short)
next
  case (Suc j)
  show ?case
  proof (cases xs)
    case Nil
    then show ?thesis by simp
  next
    case (Cons c cs)
    have "length word \<le> Suc (j + (length word - 1))" by arith
    then have sw: "startswith (c # take (j + (length word - 1)) cs) word = startswith (c # cs) word"
      using startswith_take [of word "Suc (j + (length word - 1))" "c # cs"] by simp
    from Suc.IH [OF Suc.prems, of cs "Suc k"] Cons sw show ?thesis by simp
  qed
qed

lemma occs_shift: "occs word cs k = map (\<lambda>p. p + k) (occs word cs 0)"
proof (induction cs arbitrary: k)
  case Nil
  then show ?case by simp
next
  case (Cons c cs)
  from Cons.IH [of "Suc k"] Cons.IH [of "Suc 0"] show ?case by simp
qed

text \<open>
  The loop invariant: with the handle at \<open>t\<close>, the loop still yields exactly the
  occurrences that do not lie wholly before \<open>t\<close>, those starting at \<open>t - (len(word) - 1)\<close>
  or later. Each round moves the handle forward, since the block is at least as long as the
  word.
\<close>

lemma index_loop_occs:
  assumes w: "word \<noteq> []" and bs: "length word \<le> bsize"
  shows "t \<le> length fname \<Longrightarrow> t = 0 \<or> length word - 1 \<le> t \<or> t = length fname \<Longrightarrow>
         index_loop bsize fname word (int t) acc =
         Some (acc @ map int (occs word (drop (t - (length word - 1)) fname) (t - (length word - 1))))"
proof (induction "length fname - t" arbitrary: t acc rule: less_induct)
  case less
  let ?m = "length word"
  let ?s = "t - (?m - 1)"
  show ?case
  proof (cases "t = length fname")
    case True
    have "length (drop (t - (?m - 1)) fname) < ?m"
      using True w by (cases word) auto
    then have "occs word (drop (t - (?m - 1)) fname) (t - (?m - 1)) = []"
      by (rule occs_short)
    with True show ?thesis
      by (subst index_loop.simps) (simp add: Let_def)
  next
    case False
    with less.prems have lt: "t < length fname" and inv: "t = 0 \<or> ?m - 1 \<le> t" by auto
    have t1: "(if int ?m - 1 \<le> int t \<and> int t < int (length fname)
               then int t - (int ?m - 1) else int t) = int ?s"
      using inv lt w by (cases word) auto
    define buffer where "buffer = take bsize (drop ?s fname)"
    define t2 where "t2 = ?s + length buffer"
    have ne: "buffer \<noteq> []"
      using lt bs w by (cases word) (auto simp: buffer_def)
    have t2_eq: "t2 = min (?s + bsize) (length fname)"
      using lt by (auto simp: t2_def buffer_def min_def)
    have gt: "t < t2"
      using lt bs w unfolding t2_eq by (cases word) auto
    have le: "t2 \<le> length fname" unfolding t2_eq by simp
    have inv2: "t2 = 0 \<or> ?m - 1 \<le> t2 \<or> t2 = length fname"
      using gt inv bs unfolding t2_eq by (auto simp: min_def)
    have ys: "block_yields buffer word (int t2) (py_find buffer word 0) = map int (occs word buffer ?s)"
    proof -
      have "block_yields buffer word (int t2) (py_find buffer word 0) =
            map (\<lambda>p. int t2 - (int (length buffer) - int p)) (occs word buffer 0)"
        by (rule block_yields_occs [OF w])
      also have "\<dots> = map (\<lambda>p. int (p + ?s)) (occs word buffer 0)"
        by (simp add: t2_def)
      also have "\<dots> = map int (occs word buffer ?s)"
        by (subst (2) occs_shift) (simp add: comp_def)
      finally show ?thesis .
    qed
    have split: "occs word (drop ?s fname) ?s =
        occs word buffer ?s @ occs word (drop (t2 - (?m - 1)) fname) (t2 - (?m - 1))"
    proof -
      have bs': "bsize - (?m - 1) + (?m - 1) = bsize" using bs by arith
      have a: "occs word (drop ?s fname) ?s =
            occs word buffer ?s @
            occs word (drop (?s + bsize - (?m - 1)) fname) (?s + bsize - (?m - 1))"
        using occs_split [OF w, of "drop ?s fname" ?s "bsize - (?m - 1)"] bs
        by (simp add: bs' buffer_def add.commute)
      show ?thesis
      proof (cases "?s + bsize \<le> length fname")
        case True
        then have "t2 = ?s + bsize" unfolding t2_eq by simp
        with a show ?thesis by simp
      next
        case False
        then have t2f: "t2 = length fname" unfolding t2_eq by simp
        have "length (drop (?s + bsize - (?m - 1)) fname) < ?m"
          using False w by (cases word) auto
        then have e1: "occs word (drop (?s + bsize - (?m - 1)) fname) (?s + bsize - (?m - 1)) = []"
          by (rule occs_short)
        have "length (drop (t2 - (?m - 1)) fname) < ?m"
          using t2f w by (cases word) auto
        then have e2: "occs word (drop (t2 - (?m - 1)) fname) (t2 - (?m - 1)) = []"
          by (rule occs_short)
        from a e1 e2 show ?thesis by simp
      qed
    qed
    have ih: "index_loop bsize fname word (int t2) (acc @ map int (occs word buffer ?s)) =
        Some ((acc @ map int (occs word buffer ?s)) @
              map int (occs word (drop (t2 - (?m - 1)) fname) (t2 - (?m - 1))))"
      using gt le inv2 lt by (intro less.hyps) auto
    have "index_loop bsize fname word (int t) acc =
          index_loop bsize fname word (int t2)
            (acc @ block_yields buffer word (int t2) (py_find buffer word 0))"
      apply (subst index_loop.simps)
      apply (simp only: Let_def t1 nat_int buffer_def [symmetric])
      apply (simp add: ne t2_def)
      done
    also have "\<dots> = Some (acc @ map int (occs word (drop ?s fname) ?s))"
      unfolding ys ih split by simp
    finally show ?thesis .
  qed
qed

lemma index_bs_occs:
  "word \<noteq> [] \<Longrightarrow> length word \<le> bsize \<Longrightarrow>
   index_bs bsize fname word = Some (map int (occs word fname 0))"
  using index_loop_occs [of word bsize 0 fname "[]"] by (simp add: index_bs_def)

text \<open>A block longer than the file: the first read takes all of it, the second is empty.\<close>

lemma index_bs_one_block:
  assumes w: "word \<noteq> []" and big: "length fname < bsize"
  shows "index_bs bsize fname word = Some (single_buffer_scan fname word)"
proof (cases "fname = []")
  case True
  then show ?thesis
    using w
    by (subst index_bs_def, subst index_loop.simps)
       (simp add: single_buffer_scan_def py_find_def block_yields.simps)
next
  case False
  have t1: "(if int (length word) - 1 \<le> 0 \<and> (0::int) < int (length fname)
             then 0 - (int (length word) - 1) else 0) = 0"
    using w by (cases word) auto
  have first: "index_bs bsize fname word =
      index_loop bsize fname word (int (length fname)) (single_buffer_scan fname word)"
    unfolding index_bs_def
    apply (subst index_loop.simps)
    apply (simp only: Let_def t1)
    using False big apply (simp add: single_buffer_scan_def)
    done
  have last: "index_loop bsize fname word (int (length fname)) ys = Some ys" for ys
    by (subst index_loop.simps) (simp add: Let_def)
  show ?thesis unfolding first last ..
qed

section \<open>What the scanner yields\<close>

lemma occs_filter:
  "occs word cs k = filter (\<lambda>p. startswith (drop (p - k) cs) word) [k..<k + length cs]"
proof (induction cs arbitrary: k)
  case Nil
  then show ?case by simp
next
  case (Cons c cs)
  have f: "filter (\<lambda>p. startswith (drop (p - k) (c # cs)) word) [Suc k..<Suc k + length cs] =
        filter (\<lambda>p. startswith (drop (p - Suc k) cs) word) [Suc k..<Suc k + length cs]"
    by (rule filter_cong) (auto simp: Suc_diff_le drop_Cons')
  have u: "[k..<k + length (c # cs)] = k # [Suc k..<Suc k + length cs]"
    by (subst upt_rec) simp
  show ?case
    unfolding u using Cons.IH [of "Suc k"] f by simp
qed

lemma sorted_occs: "sorted_wrt (<) (occs word cs k)"
  unfolding occs_filter by (rule sorted_wrt_filter) simp

lemma set_occs:
  "word \<noteq> [] \<Longrightarrow> set (occs word cs 0) = {p. take (length word) (drop p cs) = word}"
  unfolding occs_filter
  apply (auto simp: startswith_def)
  apply (rule ccontr)
  apply simp
  done

lemma index_occs:
  "word \<noteq> [] \<Longrightarrow> length word \<le> 2 ^ 16 \<Longrightarrow>
   index fname word = Some (map int (occs word fname 0))"
  by (simp add: index_def index_bs_occs)

text \<open>
  A terminator of \<open>2 ^ 16 + 1\<close> bytes in a file longer than one block: the first read
  leaves the handle at \<open>2 ^ 16\<close>, every later round seeks back to \<open>0\<close> and reads
  the same block again, and no block is long enough to hold the terminator.
\<close>

lemma py_find_short: "length buffer < length word \<Longrightarrow> py_find buffer word 0 = - 1"
proof -
  assume a: "length buffer < length word"
  then have w: "word \<noteq> []" by auto
  have "find_at word buffer 0 = - 1"
  proof (rule ccontr)
    assume "find_at word buffer 0 \<noteq> - 1"
    with find_at_range [of word buffer 0] have "0 \<le> find_at word buffer 0" by auto
    then obtain p where p: "find_at word buffer 0 = int p" by (metis nat_0_le)
    from find_at_some [OF w p] occs_short [OF a, of 0] show False by simp
  qed
  then show ?thesis by (simp add: py_find_def)
qed

lemma index_loop_stuck:
  assumes "index_loop bsize fname word tell ys = Some r"
  shows "\<not> (bsize = 65536 \<and> fname = replicate 65537 (CHR ''a'') \<and>
            word = replicate 65537 (CHR ''a'') \<and> tell = 65536)"
proof (rule index_loop.raw_induct [where P = "\<lambda>b f w t y r.
         \<not> (b = 65536 \<and> f = replicate 65537 (CHR ''a'') \<and>
            w = replicate 65537 (CHR ''a'') \<and> t = 65536)", OF _ assms])
  fix g :: "nat \<Rightarrow> bytes \<Rightarrow> bytes \<Rightarrow> int \<Rightarrow> int list \<Rightarrow> int list option"
  fix b f w t y r
  assume ih: "\<And>b f w t y r. g b f w t y = Some r \<Longrightarrow>
         \<not> (b = 65536 \<and> f = replicate 65537 (CHR ''a'') \<and>
            w = replicate 65537 (CHR ''a'') \<and> t = 65536)"
  assume eq: "(let fsize = int (length f); overlap = int (length w) - 1;
            tell1 = (if overlap \<le> t \<and> t < fsize then t - overlap else t);
            buffer = take b (drop (nat tell1) f);
            tell2 = tell1 + int (length buffer)
        in if buffer \<noteq> []
           then g b f w tell2 (y @ block_yields buffer w tell2 (py_find buffer w 0))
           else Some y) = Some r"
  show "\<not> (b = 65536 \<and> f = replicate 65537 (CHR ''a'') \<and>
            w = replicate 65537 (CHR ''a'') \<and> t = 65536)"
  proof
    assume c: "b = 65536 \<and> f = replicate 65537 (CHR ''a'') \<and>
            w = replicate 65537 (CHR ''a'') \<and> t = 65536"
    have nf: "py_find (replicate 65536 (CHR ''a'')) (replicate 65537 (CHR ''a'')) 0 = - 1"
      by (rule py_find_short) simp
    from eq c have "g b f w t y = Some r"
      by (simp add: Let_def nf block_yields.simps)
    from ih [OF this] c show False by blast
  qed
qed

lemma index_never_returns:
  "index (replicate 65537 (CHR ''a'')) (replicate 65537 (CHR ''a'')) = None"
proof (rule ccontr)
  assume "index (replicate 65537 (CHR ''a'')) (replicate 65537 (CHR ''a'')) \<noteq> None"
  then obtain r where
    r: "index (replicate 65537 (CHR ''a'')) (replicate 65537 (CHR ''a'')) = Some r" by auto
  have nf: "py_find (replicate 65536 (CHR ''a'')) (replicate 65537 (CHR ''a'')) 0 = - 1"
    by (rule py_find_short) simp
  have "index (replicate 65537 (CHR ''a'')) (replicate 65537 (CHR ''a'')) =
        index_loop 65536 (replicate 65537 (CHR ''a'')) (replicate 65537 (CHR ''a'')) 65536 []"
    unfolding index_def index_bs_def
    by (subst index_loop.simps) (simp add: Let_def nf block_yields.simps)
  with r index_loop_stuck show False by metis
qed

text \<open>
  C2, as amended. For every file and every terminator of at least one and at most
  \<open>2 ^ 16\<close> bytes (the block size), \<open>index\<close> returns: its offsets are finite in
  number, strictly increasing, and are exactly the byte positions \<open>p\<close> at which the
  terminator starts in the file (\<open>fname[p : p + len(word)] == word\<close>), one entry for
  every occurrence, an occurrence that overlaps the one before it included. An empty file
  yields no offset, and so does a file with no occurrence of the terminator.
\<close>

theorem C2_scan_offsets:
  assumes "word \<noteq> []" and "length word \<le> 2 ^ 16"
  shows "\<exists>ys. index fname word = Some ys \<and> sorted_wrt (<) ys \<and>
           set ys = {int p | p. p + length word \<le> length fname \<and>
                                take (length word) (drop p fname) = word} \<and>
           (fname = [] \<longrightarrow> ys = []) \<and>
           ((\<forall>p. take (length word) (drop p fname) \<noteq> word) \<longrightarrow> ys = [])"
proof -
  let ?ys = "map int (occs word fname 0)"
  have s: "set (occs word fname 0) = {p. take (length word) (drop p fname) = word}"
    by (rule set_occs [OF assms(1)])
  have bound: "p + length word \<le> length fname"
    if "take (length word) (drop p fname) = word" for p
  proof -
    from that have "length (take (length word) (drop p fname)) = length word" by simp
    with assms(1) show ?thesis by (cases word) (auto simp: min_def split: if_splits)
  qed
  have "set ?ys = {int p | p. p + length word \<le> length fname \<and>
                                take (length word) (drop p fname) = word}"
    using s bound by auto
  moreover have "sorted_wrt (<) ?ys"
    using sorted_occs [of word fname 0] by (simp add: sorted_wrt_map)
  moreover have "(\<forall>p. take (length word) (drop p fname) \<noteq> word) \<longrightarrow> ?ys = []"
    using s by auto
  moreover have "fname = [] \<longrightarrow> ?ys = []" by simp
  ultimately show ?thesis
    using index_occs [OF assms] by blast
qed

lemma scenario_index: "index ''a,1\<newline>bb,2\<newline>cc,3\<newline>'' [LF] = Some [3, 8, 13]"
  by (simp add: index_occs startswith_def)

text \<open>
  C2 at the file \<open>"a,1\nbb,2\ncc,3\n"\<close> and the terminator \<open>"\n"\<close>: the offsets are
  \<open>3, 8, 13\<close>.
\<close>

theorem C2_scan_offsets_witness:
  "[LF] \<noteq> [] \<and> length [LF] \<le> 2 ^ 16 \<and>
   (\<exists>ys. index ''a,1\<newline>bb,2\<newline>cc,3\<newline>'' [LF] = Some ys \<and> ys = [3, 8, 13] \<and>
         sorted_wrt (<) ys \<and>
         set ys = {int p | p. p + length [LF] \<le> length ''a,1\<newline>bb,2\<newline>cc,3\<newline>'' \<and>
                     take (length [LF]) (drop p ''a,1\<newline>bb,2\<newline>cc,3\<newline>'') = [LF]})"
proof -
  have h1: "[LF] \<noteq> []" by simp
  have h2: "length [LF] \<le> 2 ^ 16" by simp
  from C2_scan_offsets [OF h1 h2, of "''a,1\<newline>bb,2\<newline>cc,3\<newline>''"]
  obtain ys where ys: "index ''a,1\<newline>bb,2\<newline>cc,3\<newline>'' [LF] = Some ys" "sorted_wrt (<) ys"
     "set ys = {int p | p. p + length [LF] \<le> length ''a,1\<newline>bb,2\<newline>cc,3\<newline>'' \<and>
                     take (length [LF]) (drop p ''a,1\<newline>bb,2\<newline>cc,3\<newline>'') = [LF]}"
    by blast
  from ys(1) scenario_index have "ys = [3, 8, 13]" by simp
  with ys h1 h2 show ?thesis by blast
qed

text \<open>
  C2 as stated fails twice. In \<open>"aaa"\<close> the terminator \<open>"aa"\<close> has one
  non-overlapping occurrence, at \<open>0\<close>, and the scanner yields \<open>0\<close> and \<open>1\<close>. With
  a terminator of \<open>65537\<close> bytes and a file of \<open>65537\<close> bytes (the terminator itself)
  the scanner never returns, so its sequence of offsets is not a finite one that ends.
\<close>

theorem C2_scan_counterexample:
  "index ''aaa'' ''aa'' = Some [0, 1] \<and>
   map int (nonoverlapping_occs ''aa'' ''aaa'' 0 0) = [0] \<and>
   index (replicate 65537 (CHR ''a'')) (replicate 65537 (CHR ''a'')) = None"
  using index_never_returns by (simp add: index_occs startswith_def)

section \<open>Block-size independence of the scan\<close>

text \<open>
  C7. For every file and every terminator (one or more bytes), the block scan with the
  seek-back of \<open>len(word) - 1\<close> bytes yields the same offsets whatever the block size:
  with blocks of \<open>len(word)\<close> bytes, of \<open>len(word) + 1\<close> bytes less one, with a block
  larger than the whole file, and with any block at least as long as the terminator, it
  returns what the search of the whole file held in a single buffer returns.
\<close>

theorem C7_block_size_independence:
  assumes "word \<noteq> []"
  shows "index_bs (length word) fname word = Some (single_buffer_scan fname word) \<and>
         index_bs (length word + 1 - 1) fname word = Some (single_buffer_scan fname word) \<and>
         (\<forall>bsize. length word \<le> bsize \<or> length fname < bsize \<longrightarrow>
            index_bs bsize fname word = Some (single_buffer_scan fname word))"
proof -
  have ge: "index_bs bsize fname word = Some (single_buffer_scan fname word)"
    if "length word \<le> bsize" for bsize
    using index_bs_occs [OF assms that] single_buffer_scan_occs [OF assms] by simp
  have big: "index_bs bsize fname word = Some (single_buffer_scan fname word)"
    if "length fname < bsize" for bsize
    using index_bs_one_block [OF assms that] .
  from ge [of "length word"] ge big show ?thesis by auto
qed

text \<open>
  C7 at a file of two SDF-style records and the terminator \<open>"$$$$\n"\<close>: blocks of
  \<open>5\<close>, of \<open>6\<close> and of \<open>65536\<close> bytes and the single buffer all give the offsets
  \<open>2\<close> and \<open>9\<close>.
\<close>

theorem C7_block_size_independence_witness:
  "index_bs 5 ''a\<newline>$$$$\<newline>b\<newline>$$$$\<newline>'' ''$$$$\<newline>'' = Some [2, 9] \<and>
   index_bs 6 ''a\<newline>$$$$\<newline>b\<newline>$$$$\<newline>'' ''$$$$\<newline>'' = Some [2, 9] \<and>
   index_bs 65536 ''a\<newline>$$$$\<newline>b\<newline>$$$$\<newline>'' ''$$$$\<newline>'' = Some [2, 9] \<and>
   single_buffer_scan ''a\<newline>$$$$\<newline>b\<newline>$$$$\<newline>'' ''$$$$\<newline>'' = [2, 9]"
proof -
  have ne: "''$$$$\<newline>'' \<noteq> []" by simp
  have scan: "single_buffer_scan ''a\<newline>$$$$\<newline>b\<newline>$$$$\<newline>'' ''$$$$\<newline>'' = [2, 9]"
    by (simp add: single_buffer_scan_occs startswith_def)
  from C7_block_size_independence [OF ne, of "''a\<newline>$$$$\<newline>b\<newline>$$$$\<newline>''"] scan
  show ?thesis by simp
qed

section \<open>The stores the builders leave\<close>

lemma replicate_numeral: "replicate (numeral k) x = x # replicate (pred_numeral k) x"
  by (simp add: numeral_eq_Suc)

lemma putRow_shape:
  "RawStore_putRow st i row = Inr st' \<Longrightarrow>
   columns st' = columns st \<and> length (rows st') = length (rows st)"
  by (auto simp: RawStore_putRow_def split: if_splits)

lemma put_offsets_shape:
  "columns (fst (put_offsets st i ps)) = columns st \<and>
   length (rows (fst (put_offsets st i ps))) = length (rows st)"
proof (induction ps arbitrary: st i)
  case Nil
  then show ?case by simp
next
  case (Cons p ps)
  show ?case
  proof (cases "RawStore_putRow st (i + 1) [p + 1]")
    case (Inl e)
    then show ?thesis by simp
  next
    case (Inr st')
    with Cons.IH [of st' "i + 1"] putRow_shape [OF Inr] show ?thesis by simp
  qed
qed

lemma count_lines_ge_occs: "length (occs [LF] cs k) \<le> count_lines pending cs"
proof (induction pending cs arbitrary: k rule: count_lines.induct)
  case (1 pending)
  then show ?case by simp
next
  case (2 pending c cs)
  show ?case
  proof (cases "c = LF")
    case True
    with 2(1) [of "Suc k"] show ?thesis by (simp add: startswith_def)
  next
    case nl: False
    show ?thesis
    proof (cases "c = CR")
      case False
      with nl 2(4) [of "Suc k"] show ?thesis by (simp add: startswith_def)
    next
      case cr: True
      show ?thesis
      proof (cases cs)
        case Nil
        with nl cr show ?thesis by (simp add: startswith_def)
      next
        case (Cons d ds)
        show ?thesis
        proof (cases "d = LF")
          case True
          with nl cr Cons 2(2) [of d ds "Suc (Suc k)"] show ?thesis
            by (simp add: startswith_def)
        next
          case False
          with nl cr Cons 2(3) [of d ds "Suc k"] show ?thesis
            by (simp add: startswith_def)
        qed
      qed
    qed
  qed
qed

lemma MakeSmilesIndex_store:
  assumes "ascii_text fname"
  shows "\<exists>st r. MakeSmilesIndex fname header sc nc sp = Some (st, r) \<and>
          columns st = [(''index'', select_dtype (simplecount fname))] \<and>
          RawStore_N st = simplecount fname + 1"
proof -
  let ?n = "simplecount fname"
  let ?db0 = "MakeStore [(''index'', select_dtype ?n)] (?n + 1)"
  have n0: "0 \<le> ?n" by (simp add: simplecount_def)
  then obtain db1 where p0: "RawStore_putRow ?db0 0 [0] = Inr db1"
    by (simp add: RawStore_putRow_def MakeStore_def RawStore_N_def)
  from putRow_shape [OF p0] n0
  have s1: "columns db1 = [(''index'', select_dtype ?n)]" "length (rows db1) = nat (?n + 1)"
    by (simp_all add: MakeStore_def)
  have ix: "index fname [LF] = Some (map int (occs [LF] fname 0))"
    by (rule index_occs) simp_all
  obtain db2 e where po: "put_offsets db1 0 (map int (occs [LF] fname 0)) = (db2, e)"
    by (cases "put_offsets db1 0 (map int (occs [LF] fname 0))")
  from put_offsets_shape [of db1 0 "map int (occs [LF] fname 0)"] po s1
  have s2: "columns db2 = [(''index'', select_dtype ?n)]" "length (rows db2) = nat (?n + 1)"
    by simp_all
  show ?thesis
    using p0 ix po s2 n0
    by (cases e) (simp_all add: MakeSmilesIndex_def Let_def RawStore_N_def)
qed

lemma occs_sdf_none: "occs ''$$$$\<newline>'' (replicate n LF) k = []"
  by (induction n arbitrary: k) (simp_all add: startswith_def)

lemma MakeSDFIndex_store:
  assumes "ascii_text fname"
  shows "\<exists>st r. MakeSDFIndex fname = Some (st, r) \<and>
          columns st = [(''index'', select_dtype (simplecount fname))] \<and>
          RawStore_N st = simplecount fname + 1"
proof -
  let ?n = "simplecount fname"
  let ?db0 = "MakeStore [(''index'', select_dtype ?n)] (?n + 1)"
  have n0: "0 \<le> ?n" by (simp add: simplecount_def)
  then obtain db1 where p0: "RawStore_putRow ?db0 0 [0] = Inr db1"
    by (simp add: RawStore_putRow_def MakeStore_def RawStore_N_def)
  from putRow_shape [OF p0] n0
  have s1: "columns db1 = [(''index'', select_dtype ?n)]" "length (rows db1) = nat (?n + 1)"
    by (simp_all add: MakeStore_def)
  have ix: "index fname ''$$$$\<newline>'' = Some (map int (occs ''$$$$\<newline>'' fname 0))"
    by (rule index_occs) simp_all
  show ?thesis
    using p0 ix s1 n0
    by (cases "occs ''$$$$\<newline>'' fname 0") (simp_all add: MakeSDFIndex_def Let_def RawStore_N_def)
qed

lemma select_dtype_least:
  "n < 2 ^ (8 * itemsize d) \<Longrightarrow> itemsize (select_dtype n) \<le> itemsize d"
  by (cases d) (auto simp: select_dtype_def)

lemma select_dtype_covers:
  "n < 2 ^ 64 \<Longrightarrow> n < 2 ^ (8 * itemsize (select_dtype n))"
  by (auto simp: select_dtype_def)

lemmas eval_defs =
  select_dtype_def MakeStore_def RawStore_putRow_def RawStore_get_def RawStore_N_def
  store_value_def MolFileIndex_init_def MolFileIndex__get_def MolFileIndex_get_def
  MolFileIndex_getMol_def MolFileIndex_getName_def first_column_def py_read_def py_len_def
  py_getitem_def column_names_def init_smiles_def init_name_def resolve_column_def Let_def
  replicate_numeral

lemma scenario_count: "simplecount ''a,1\<newline>bb,2\<newline>cc,3\<newline>'' = 3"
  by (simp add: simplecount_def)

section \<open>The scenario of three records\<close>

text \<open>
  C1. \<open>MakeSmilesIndex\<close> on the file \<open>"a,1\nbb,2\ncc,3\n"\<close>, no header, no separator:
  the store holds the offsets \<open>0, 4, 9, 14\<close>, \<open>get(0)\<close> is \<open>"a,1"\<close> and \<open>get(2)\<close> is
  \<open>"cc,3"\<close>, as the claim says; the record count \<open>N\<close> of the object is
  \<open>db.N - 2 = 2\<close>, where the claim says \<open>3\<close>.
\<close>

theorem C1_scenario_row_count:
  "\<exists>st m. MakeSmilesIndex ''a,1\<newline>bb,2\<newline>cc,3\<newline>'' False (ColInt 0) (ColInt (- 1)) None
             = Some (st, Inr m) \<and>
          rows st = [[0], [4], [9], [14]] \<and>
          MolFileIndex_get m 0 = Inr (Raw ''a,1'') \<and>
          MolFileIndex_get m 2 = Inr (Raw ''cc,3'') \<and>
          N m = 2"
  by (simp add: MakeSmilesIndex_def scenario_index scenario_count eval_defs)

section \<open>The offsets the builders write\<close>

lemma sdf_index: "index ''a\<newline>$$$$\<newline>'' ''$$$$\<newline>'' = Some [2]"
  by (simp add: index_occs startswith_def)

lemma sdf_count: "simplecount ''a\<newline>$$$$\<newline>'' = 2"
  by (simp add: simplecount_def)

text \<open>
  C3. \<open>MakeSDFIndex\<close> on the file \<open>"a\n$$$$\n"\<close>, whose terminator \<open>"$$$$\n"\<close> starts
  at byte \<open>2\<close>: the builder writes \<open>offset[0] = 0\<close> and then raises \<open>NameError\<close> in
  the first round of its loop; \<open>offset[1]\<close> keeps the zero of the new store, where the
  claim says \<open>2 + len("$$$$\n") = 7\<close>.
\<close>

theorem C3_sdf_builder_raises:
  "MakeSDFIndex ''a\<newline>$$$$\<newline>'' =
     Some (\<lparr>columns = [(''index'', uint8)], rows = [[0], [0], [0]]\<rparr>, Inl NameError)"
  by (simp add: MakeSDFIndex_def sdf_index sdf_count eval_defs)

lemma occs_skip: "x \<noteq> LF \<Longrightarrow> occs [LF] (replicate n x @ cs) k = occs [LF] cs (k + n)"
  by (induction n arbitrary: k) (simp_all add: startswith_def)

lemma count_lines_skip:
  "x \<noteq> LF \<Longrightarrow> x \<noteq> CR \<Longrightarrow>
   count_lines pending (replicate n x @ cs) = count_lines (pending \<or> 0 < n) cs"
  by (induction n arbitrary: pending) simp_all

lemma long_line_index: "index (replicate 255 (CHR ''x'') @ [LF]) [LF] = Some [255]"
  by (simp add: index_occs occs_skip startswith_def)

lemma long_line_count: "simplecount (replicate 255 (CHR ''x'') @ [LF]) = 1"
  by (simp add: simplecount_def count_lines_skip)

lemma one_line_store:
  assumes "simplecount fname = 1" and "index fname [LF] = Some [255]"
  shows "\<exists>st r. MakeSmilesIndex fname header sc nc sp = Some (st, r) \<and>
          columns st = [(''index'', uint8)] \<and> rows st = [[0], [0]]"
  by (simp add: MakeSmilesIndex_def assms select_dtype_def MakeStore_def RawStore_putRow_def
        RawStore_N_def store_value_def Let_def replicate_numeral)

text \<open>
  C6. \<open>MakeSmilesIndex\<close> on a file of one line, \<open>255\<close> bytes \<open>x\<close> and the terminator
  \<open>"\n"\<close> at byte \<open>255\<close>: the line count \<open>1\<close> selects \<open>uint8\<close>, and the offset
  \<open>256\<close>, one past the terminator, does not fit the column. The store keeps
  \<open>offset[0] = 0\<close> and \<open>offset[1] = 0\<close>: \<open>offset[0] < offset[1]\<close> fails and
  \<open>offset[1]\<close> is not the position one past the final terminator.
\<close>

theorem C6_offset_wider_than_column:
  "\<exists>st r. MakeSmilesIndex (replicate 255 (CHR ''x'') @ [LF]) False (ColInt 0) (ColInt (- 1)) None
             = Some (st, r) \<and>
          index (replicate 255 (CHR ''x'') @ [LF]) [LF] = Some [255] \<and>
          columns st = [(''index'', uint8)] \<and> rows st = [[0], [0]]"
  using one_line_store [OF long_line_count long_line_index, of False "ColInt 0" "ColInt (- 1)" None]
    long_line_index by blast

lemma occs_bound: "p \<in> set (occs word cs k) \<Longrightarrow> k \<le> p \<and> p < k + length cs"
  unfolding occs_filter by auto

text \<open>
  The loop of \<open>MakeSmilesIndex\<close> on a store whose rows from \<open>i + 1\<close> on are still to
  be written: when every offset fits the column, row \<open>i + 1 + j\<close> receives the \<open>j\<close>-th
  position plus one and no \<open>putRow\<close> raises.
\<close>

lemma put_offsets_fits:
  assumes "columns st = [(nm, d)]"
    and "rows st = pre @ zs"
    and "int (length pre) = i + 1"
    and "length ps \<le> length zs"
    and "\<forall>p\<in>set ps. 0 \<le> p + 1 \<and> p + 1 < 2 ^ (8 * itemsize d)"
  shows "put_offsets st i ps =
           (st\<lparr>rows := pre @ map (\<lambda>p. [nat (p + 1)]) ps @ drop (length ps) zs\<rparr>, None)"
  using assms
proof (induction ps arbitrary: st i pre zs)
  case Nil
  then show ?case by simp
next
  case (Cons p ps)
  from Cons.prems(4) obtain z zs' where zs: "zs = z # zs'" by (cases zs) auto
  from Cons.prems(5) have fit: "0 \<le> p + 1" "p + 1 < 2 ^ (8 * itemsize d)" by auto
  then have sv: "store_value d (p + 1) = nat (p + 1)"
    by (simp add: store_value_def)
  have upd: "(pre @ z # zs')[nat (i + 1) := [nat (p + 1)]] = (pre @ [[nat (p + 1)]]) @ zs'"
  proof -
    from Cons.prems(3) have "nat (i + 1) = length pre" by linarith
    then show ?thesis by (simp add: list_update_length)
  qed
  let ?st' = "st\<lparr>rows := (pre @ [[nat (p + 1)]]) @ zs'\<rparr>"
  have put: "RawStore_putRow st (i + 1) [p + 1] = Inr ?st'"
    using Cons.prems(1,2,3) zs sv upd
    by (simp add: RawStore_putRow_def RawStore_N_def)
  have ih: "put_offsets ?st' (i + 1) ps =
      (?st'\<lparr>rows := (pre @ [[nat (p + 1)]]) @ map (\<lambda>p. [nat (p + 1)]) ps @ drop (length ps) zs'\<rparr>, None)"
    using Cons.prems zs by (intro Cons.IH) auto
  show ?case
    using put ih zs by simp
qed

text \<open>
  A file that is shorter than the range of the column selected for it: the store holds
  \<open>offset[0] = 0\<close>, then \<open>offset[i+1] = p + 1\<close> for the \<open>i\<close>-th occurrence \<open>p\<close> of
  \<open>"\n"\<close>, then the zeros of the rows that the line count adds; these offsets increase
  strictly.
\<close>

lemma MakeSmilesIndex_offsets:
  assumes "ascii_text fname"
    and fits: "int (length fname) < 2 ^ (8 * itemsize (select_dtype (simplecount fname)))"
  shows "\<exists>st r. MakeSmilesIndex fname header sc nc sp = Some (st, r) \<and>
           rows st = [0] # map (\<lambda>p. [Suc p]) (occs [LF] fname 0) @
                     replicate (count_lines False fname - length (occs [LF] fname 0)) [0]"
proof -
  let ?n = "simplecount fname"
  let ?d = "select_dtype ?n"
  let ?os = "occs [LF] fname 0"
  let ?db0 = "MakeStore [(''index'', ?d)] (?n + 1)"
  have n: "?n = int (count_lines False fname)" by (simp add: simplecount_def)
  have r0: "rows ?db0 = [0] # replicate (count_lines False fname) [0]"
    by (simp add: MakeStore_def n nat_add_distrib)
  have sv0: "store_value ?d 0 = 0" by (simp add: store_value_def)
  have p0: "RawStore_putRow ?db0 0 [0] = Inr ?db0"
    using r0 sv0 by (simp add: RawStore_putRow_def RawStore_N_def MakeStore_def)
  have ix: "index fname [LF] = Some (map int ?os)"
    by (rule index_occs) simp_all
  have len: "length (map int ?os) \<le> length (replicate (count_lines False fname) [0::nat])"
    using count_lines_ge_occs [of fname 0 False] by simp
  have fit: "\<forall>p\<in>set (map int ?os). 0 \<le> p + 1 \<and> p + 1 < 2 ^ (8 * itemsize ?d)"
  proof
    fix p assume "p \<in> set (map int ?os)"
    then obtain q where q: "p = int q" "q \<in> set ?os" by auto
    from occs_bound [OF q(2)] have "int q + 1 \<le> int (length fname)" by simp
    then have "int q + 1 < 2 ^ (8 * itemsize ?d)" using fits by (rule le_less_trans)
    with q(1) show "0 \<le> p + 1 \<and> p + 1 < 2 ^ (8 * itemsize ?d)" by simp
  qed
  have c0: "columns ?db0 = [(''index'', ?d)]" by (simp add: MakeStore_def)
  have r0': "rows ?db0 = [[0]] @ replicate (count_lines False fname) [0]"
    using r0 by simp
  have i0: "int (length [[0::nat]]) = 0 + 1" by simp
  have po: "put_offsets ?db0 0 (map int ?os) =
      (?db0\<lparr>rows := [[0]] @ map (\<lambda>p. [nat (p + 1)]) (map int ?os) @
                 drop (length (map int ?os)) (replicate (count_lines False fname) [0])\<rparr>, None)"
    by (rule put_offsets_fits [OF c0 r0' i0 len fit])
  have e: "nat (int x + 1) = Suc x" for x by linarith
  show ?thesis
    by (simp add: MakeSmilesIndex_def Let_def p0 ix po e del: replicate.simps)
qed

lemma increasing_offsets:
  "sorted_wrt (<) (0 # map Suc (occs [LF] fname 0))"
  using sorted_occs [of "[LF]" fname 0] by (simp add: sorted_wrt_map)

section \<open>Reading a record\<close>

lemma header_index: "index ''h\<newline>a\<newline>b\<newline>'' [LF] = Some [1, 3, 5]"
  by (simp add: index_occs startswith_def)

lemma header_count: "simplecount ''h\<newline>a\<newline>b\<newline>'' = 3"
  by (simp add: simplecount_def)

text \<open>
  C4. \<open>MakeSmilesIndex\<close> with \<open>hasHeader\<close> on the file \<open>"h\na\nb\n"\<close>: record \<open>0\<close>
  is the header \<open>"h"\<close>, record \<open>1\<close> is \<open>"a"\<close> and record \<open>2\<close> is \<open>"b"\<close>.
  \<open>getMol(0)\<close> reads record \<open>1\<close>; \<open>get(0)\<close> reads record \<open>2\<close>, a shift of two, where
  the claim says record \<open>1\<close>.
\<close>

theorem C4_get_shifts_twice:
  "\<exists>st m. MakeSmilesIndex ''h\<newline>a\<newline>b\<newline>'' True (ColInt 0) (ColInt (- 1)) None
             = Some (st, Inr m) \<and>
          rows st = [[0], [2], [4], [6]] \<and>
          MolFileIndex_header m = Inr (Raw ''h'') \<and>
          MolFileIndex_getMol m 0 = Inr (Raw ''a'') \<and>
          MolFileIndex_get m 0 = Inr (Raw ''b'')"
  by (simp add: MakeSmilesIndex_def header_index header_count MolFileIndex_header_def eval_defs)

text \<open>Under a header \<open>get(idx)\<close> reads the record \<open>idx + 2\<close> of the store, whatever \<open>idx\<close>.\<close>

lemma get_under_header:
  "hasHeader self \<Longrightarrow>
   MolFileIndex_get self idx = MolFileIndex__get (self\<lparr>hasHeader := False\<rparr>) (Some (idx + 2))"
  by (simp add: MolFileIndex_get_def MolFileIndex__get_def Let_def add.commute add.left_commute
           cong: sum.case_cong)

text \<open>
  C5, as amended. On \<open>plain_text\<close> content (one byte per character, no carriage
  return), for a physical row \<open>p\<close> of the index with
  \<open>offset[p] < offset[p+1] \<le> len(file)\<close>, and whatever the terminator of the indexed file:
  \<open>_get\<close> seeks to \<open>offset[p]\<close> and reads exactly \<open>offset[p+1] - offset[p] - 1\<close>
  bytes, one byte less than the span and not the length of the terminator less; it returns
  them split on the field separator if one is configured (\<open>if self.sep\<close>: set and not the
  empty string), and as the raw span otherwise.
\<close>

theorem C5_get_reads_span_less_one:
  assumes "plain_text (filename self)"
      and "RawStore_get (db self) p = Inr (start # r1)"
      and "RawStore_get (db self) (p + 1) = Inr (stop # r2)"
      and "p = (case idx of None \<Rightarrow> 0 | Some j \<Rightarrow> if hasHeader self then j + 1 else j)"
      and "start < stop"
      and "stop \<le> length (filename self)"
  shows "let buf = take (stop - start - 1) (drop start (filename self))
         in length buf = stop - start - 1 \<and>
            MolFileIndex__get self idx =
              Inr (case sep self of
                     None \<Rightarrow> Raw buf
                   | Some sp \<Rightarrow> if sp \<noteq> [] then Fields (py_split sp [] buf) else Raw buf)"
proof -
  have n: "nat (int stop - int start - 1) = stop - start - 1"
    and nn: "\<not> int stop - int start - 1 < 0"
    using assms(5) by linarith+
  have rd: "py_read (filename self) start (int stop - int start - 1) =
            take (stop - start - 1) (drop start (filename self))"
    unfolding py_read_def using n nn by simp
  have len: "length (take (stop - start - 1) (drop start (filename self))) = stop - start - 1"
    using assms(5,6) by simp
  have get: "MolFileIndex__get self idx =
      Inr (case sep self of
             None \<Rightarrow> Raw (take (stop - start - 1) (drop start (filename self)))
           | Some sp \<Rightarrow>
               if sp \<noteq> []
               then Fields (py_split sp [] (take (stop - start - 1) (drop start (filename self))))
               else Raw (take (stop - start - 1) (drop start (filename self))))"
    unfolding MolFileIndex__get_def Let_def assms(4) [symmetric] assms(2) assms(3)
    by (simp add: first_column_def rd split: option.splits)
  show ?thesis
    unfolding Let_def using len get by simp
qed

text \<open>
  C5 at the row \<open>1\<close> of the scenario file, with the separator \<open>","\<close>: the content is
  plain text, the offsets are \<open>4\<close> and \<open>9\<close>, the four bytes \<open>"bb,2"\<close> are read and
  split.
\<close>

theorem C5_get_reads_span_less_one_witness:
  "\<exists>m. MolFileIndex_init ''a,1\<newline>bb,2\<newline>cc,3\<newline>''
          \<lparr>columns = [(''index'', uint8)], rows = [[0], [4], [9], [14]]\<rparr>
          (ColInt 0) (ColInt 1) False (Some '','') None = Inr m \<and>
        plain_text (filename m) \<and>
        RawStore_get (db m) 1 = Inr [4] \<and> RawStore_get (db m) 2 = Inr [9] \<and>
        (4::nat) < 9 \<and> 9 \<le> length (filename m) \<and>
        MolFileIndex__get m (Some 1) = Inr (Fields [''bb'', ''2'']) \<and>
        length ''bb,2'' = 9 - 4 - 1"
proof -
  obtain m where m: "MolFileIndex_init ''a,1\<newline>bb,2\<newline>cc,3\<newline>''
          \<lparr>columns = [(''index'', uint8)], rows = [[0], [4], [9], [14]]\<rparr>
          (ColInt 0) (ColInt 1) False (Some '','') None = Inr m"
    and f: "db m = \<lparr>columns = [(''index'', uint8)], rows = [[0], [4], [9], [14]]\<rparr>"
       "filename m = ''a,1\<newline>bb,2\<newline>cc,3\<newline>''" "sep m = Some '',''" "\<not> hasHeader m"
    by (simp add: eval_defs startswith_def)
  have pt: "plain_text (filename m)"
    by (simp add: f plain_text_def)
  have g1: "RawStore_get (db m) 1 = Inr (4 # [])"
    and g2: "RawStore_get (db m) (1 + 1) = Inr (9 # [])"
    by (simp_all add: f RawStore_get_def RawStore_N_def)
  have p: "(1::int) = (case Some 1 of None \<Rightarrow> 0 | Some j \<Rightarrow> if hasHeader m then j + 1 else j)"
    by (simp add: f)
  have lt: "(4::nat) < 9" by simp
  have le: "9 \<le> length (filename m)" by (simp add: f)
  from C5_get_reads_span_less_one [OF pt g1 g2 p lt le]
  have "MolFileIndex__get m (Some 1) = Inr (Fields [''bb'', ''2''])"
    by (simp add: f startswith_def)
  with m pt g1 g2 le show ?thesis by simp
qed

text \<open>
  C5 as stated fails for the terminator \<open>"$$$$\n"\<close>: over the file \<open>"ab$$$$\n"\<close> with the
  offsets \<open>0\<close> and \<open>7\<close> (\<open>7 = 2 + len("$$$$\n")\<close>), \<open>_get(0)\<close> returns the six bytes
  \<open>"ab$$$$"\<close>, not the \<open>7 - 0 - 5 = 2\<close> bytes \<open>"ab"\<close>.
\<close>

theorem C5_terminator_length_counterexample:
  "\<exists>m. MolFileIndex_init ''ab$$$$\<newline>''
          \<lparr>columns = [(''index'', uint8)], rows = [[0], [7]]\<rparr>
          (ColInt (- 1)) (ColInt (- 1)) False None (Some SDFNameGetter) = Inr m \<and>
        MolFileIndex__get m (Some 0) = Inr (Raw ''ab$$$$'') \<and>
        int (length ''ab$$$$'') \<noteq> 7 - 0 - int (length ''$$$$\<newline>'')"
  by (simp add: eval_defs)

section \<open>The width of the offset column\<close>

lemma occs_newlines:
  "length (occs [LF] (replicate n LF @ cs) k) = n + length (occs [LF] cs (k + n))"
  by (induction n arbitrary: k) (simp_all add: startswith_def)

lemma count_lines_newlines:
  "count_lines False (replicate n LF @ cs) = n + count_lines False cs"
  by (induction n) simp_all

text \<open>
  C8 as stated fails for both builders. A file of \<open>255\<close> empty lines and a last line
  \<open>"x"\<close> without terminator has \<open>255\<close> occurrences of \<open>"\n"\<close>, which \<open>uint8\<close>
  covers, and \<open>MakeSmilesIndex\<close> makes the column \<open>uint16\<close>. A file of \<open>256\<close> empty
  lines has no occurrence of \<open>"$$$$\n"\<close>, and \<open>MakeSDFIndex\<close> makes the column
  \<open>uint16\<close>.
\<close>

theorem C8_width_counterexample:
  "(\<exists>st r. MakeSmilesIndex (replicate 255 LF @ ''x'') False (ColInt 0) (ColInt (- 1)) None
              = Some (st, r) \<and> columns st = [(''index'', uint16)]) \<and>
   (\<exists>ps. index (replicate 255 LF @ ''x'') [LF] = Some ps \<and> length ps = 255 \<and>
          select_dtype (int (length ps)) = uint8) \<and>
   (\<exists>st r. MakeSDFIndex (replicate 256 LF) = Some (st, r) \<and>
           columns st = [(''index'', uint16)]) \<and>
   (\<exists>ps. index (replicate 256 LF) ''$$$$\<newline>'' = Some ps \<and> length ps = 0 \<and>
          select_dtype (int (length ps)) = uint8)"
proof -
  have n1: "simplecount (replicate 255 LF @ ''x'') = 256"
    by (simp add: simplecount_def count_lines_newlines)
  have n2: "simplecount (replicate 256 LF) = 256"
    using count_lines_newlines [of 256 "[]"] by (simp add: simplecount_def)
  have d: "select_dtype 256 = uint16" "select_dtype 255 = uint8" "select_dtype 0 = uint8"
    by (simp_all add: select_dtype_def)
  have i1: "index (replicate 255 LF @ ''x'') [LF] = Some (map int (occs [LF] (replicate 255 LF @ ''x'') 0))"
    by (rule index_occs) simp_all
  have l1: "length (occs [LF] (replicate 255 LF @ ''x'') 0) = 255"
    by (simp add: occs_newlines startswith_def)
  have i2: "index (replicate 256 LF) ''$$$$\<newline>'' = Some []"
    by (simp add: index_occs occs_sdf_none)
  have a1: "ascii_text (replicate 255 LF @ ''x'')" and a2: "ascii_text (replicate 256 LF)"
    by (auto simp: ascii_text_def list_all_iff)
  from MakeSmilesIndex_store [OF a1, of False "ColInt 0" "ColInt (- 1)" None]
  have a: "\<exists>st r. MakeSmilesIndex (replicate 255 LF @ ''x'') False (ColInt 0) (ColInt (- 1)) None
              = Some (st, r) \<and> columns st = [(''index'', uint16)]"
    unfolding n1 d by blast
  from MakeSDFIndex_store [OF a2]
  have b: "\<exists>st r. MakeSDFIndex (replicate 256 LF) = Some (st, r) \<and>
           columns st = [(''index'', uint16)]"
    unfolding n2 d by blast
  from a b i1 l1 i2 d show ?thesis by simp
qed

text \<open>
  C8, as amended. For a source file of ASCII bytes (\<open>ascii_text\<close>, content that the
  text-mode handle of \<open>simplecount\<close> decodes): both builders choose the element type of
  the offset column, once, when the store is created, from the number \<open>N\<close> of lines that
  \<open>simplecount\<close> counts in the file (a last line without terminator counts; for the SDF
  builder these are the lines of the text, not its records): \<open>uint8\<close> when \<open>N < 2^8\<close>,
  \<open>uint16\<close> when \<open>N < 2^16\<close>, \<open>uint32\<close> when \<open>N < 2^32\<close>, else \<open>uint64\<close>. That is
  the smallest of the widths \<open>1, 2, 4, 8\<close> whose range covers \<open>N\<close>, and it covers \<open>N\<close>
  when \<open>N < 2^64\<close>. The number of occurrences of \<open>"\n"\<close> is at most \<open>N\<close>.
\<close>

theorem C8_width_from_line_count:
  assumes "ascii_text fname"
  shows
  "(\<exists>st r. MakeSmilesIndex fname header sc nc sp = Some (st, r) \<and>
           columns st = [(''index'', select_dtype (simplecount fname))]) \<and>
   (\<exists>st r. MakeSDFIndex fname = Some (st, r) \<and>
           columns st = [(''index'', select_dtype (simplecount fname))]) \<and>
   select_dtype (simplecount fname) =
     (if simplecount fname < 2 ^ 8 then uint8
      else if simplecount fname < 2 ^ 16 then uint16
      else if simplecount fname < 2 ^ 32 then uint32 else uint64) \<and>
   (\<forall>d. simplecount fname < 2 ^ (8 * itemsize d) \<longrightarrow>
        itemsize (select_dtype (simplecount fname)) \<le> itemsize d) \<and>
   (simplecount fname < 2 ^ 64 \<longrightarrow>
        simplecount fname < 2 ^ (8 * itemsize (select_dtype (simplecount fname)))) \<and>
   (\<exists>ps. index fname [LF] = Some ps \<and> int (length ps) \<le> simplecount fname)"
proof -
  have "index fname [LF] = Some (map int (occs [LF] fname 0))"
    by (rule index_occs) simp_all
  moreover have "int (length (occs [LF] fname 0)) \<le> simplecount fname"
    using count_lines_ge_occs [of fname 0 False] by (simp add: simplecount_def)
  ultimately have l: "\<exists>ps. index fname [LF] = Some ps \<and> int (length ps) \<le> simplecount fname"
    by simp
  have a: "\<exists>st r. MakeSmilesIndex fname header sc nc sp = Some (st, r) \<and>
           columns st = [(''index'', select_dtype (simplecount fname))]"
    using MakeSmilesIndex_store [OF assms, of header sc nc sp] by blast
  have b: "\<exists>st r. MakeSDFIndex fname = Some (st, r) \<and>
           columns st = [(''index'', select_dtype (simplecount fname))]"
    using MakeSDFIndex_store [OF assms] by blast
  have c: "select_dtype (simplecount fname) =
     (if simplecount fname < 2 ^ 8 then uint8
      else if simplecount fname < 2 ^ 16 then uint16
      else if simplecount fname < 2 ^ 32 then uint32 else uint64)"
    by (simp add: select_dtype_def)
  from a b c l select_dtype_least [of "simplecount fname"]
    select_dtype_covers [of "simplecount fname"]
  show ?thesis by blast
qed

text \<open>
  C8 at the file \<open>"a,1\nbb,2\ncc,3"\<close>, of ASCII bytes: two terminators, three lines,
  \<open>uint8\<close> from both builders.
\<close>

theorem C8_width_from_line_count_witness:
  "ascii_text ''a,1\<newline>bb,2\<newline>cc,3'' \<and>
   (\<exists>st r. MakeSmilesIndex ''a,1\<newline>bb,2\<newline>cc,3'' False (ColInt 0) (ColInt (- 1)) None
             = Some (st, r) \<and> columns st = [(''index'', uint8)]) \<and>
   (\<exists>st r. MakeSDFIndex ''a,1\<newline>bb,2\<newline>cc,3'' = Some (st, r) \<and>
           columns st = [(''index'', uint8)]) \<and>
   simplecount ''a,1\<newline>bb,2\<newline>cc,3'' = 3 \<and>
   (3::int) < 2 ^ (8 * itemsize uint8) \<and>
   itemsize (select_dtype 3) \<le> itemsize uint8 \<and>
   index ''a,1\<newline>bb,2\<newline>cc,3'' [LF] = Some [3, 8]"
proof -
  have a: "ascii_text ''a,1\<newline>bb,2\<newline>cc,3''"
    by (simp add: ascii_text_def)
  have n: "simplecount ''a,1\<newline>bb,2\<newline>cc,3'' = 3"
    by (simp add: simplecount_def)
  have d: "select_dtype 3 = uint8" by (simp add: select_dtype_def)
  have i: "index ''a,1\<newline>bb,2\<newline>cc,3'' [LF] = Some [3, 8]"
    by (simp add: index_occs startswith_def)
  from C8_width_from_line_count [OF a, of False "ColInt 0" "ColInt (- 1)" None]
  show ?thesis unfolding n d using i a by simp
qed

section \<open>Attributes that \<open>__init__\<close> leaves unassigned\<close>

text \<open>
  C9. The object of the scenario, built with \<open>nameColumn = -1\<close> and no \<open>nameFxn\<close>:
  \<open>getName(0)\<close> raises \<open>AttributeError\<close> at \<open>self.nameidx\<close>, where the claim says the
  \<open>ValueError\<close> of the missing name column.
\<close>

theorem C9_getName_attribute_error:
  "\<exists>st m. MakeSmilesIndex ''a,1\<newline>bb,2\<newline>cc,3\<newline>'' False (ColInt 0) (ColInt (- 1)) None
             = Some (st, Inr m) \<and>
          nameColumn m = ColInt (- 1) \<and> nameFxn m = None \<and>
          MolFileIndex_getName m 0 = Inl AttributeError"
  by (simp add: MakeSmilesIndex_def scenario_index scenario_count eval_defs)

text \<open>
  With the column \<open>-1\<close> the attribute is not assigned, and no \<open>__init__\<close> assigns
  \<open>_nameGetter\<close>.
\<close>

lemma init_attributes:
  assumes "MolFileIndex_init fname st sc nc header sp nfxn = Inr m"
  shows "(sc = ColInt (- 1) \<longrightarrow> smilesColIdx m = None) \<and>
         (nc = ColInt (- 1) \<longrightarrow> nameidx m = None) \<and> nameGetter m = None"
  using assms
  by (auto simp: MolFileIndex_init_def init_smiles_def init_name_def Let_def
           split: sum.splits if_splits)

text \<open>
  C10. When \<open>MolFileIndex\<close> is constructed with the integer \<open>smilesColumn = -1\<close>, the
  attribute \<open>smilesColIdx\<close> is not assigned, and every call \<open>getMol(idx)\<close> raises
  \<open>AttributeError\<close>: the branch that returns the whole record is never reached.
\<close>

theorem C10_getMol_attribute_error:
  assumes "MolFileIndex_init fname st (ColInt (- 1)) nc header sp nfxn = Inr m"
  shows "smilesColIdx m = None \<and> (\<forall>idx. MolFileIndex_getMol m idx = Inl AttributeError)"
  using init_attributes [OF assms] by (simp add: MolFileIndex_getMol_def)

text \<open>C10 at the index of the scenario file, built with the defaults.\<close>

theorem C10_getMol_attribute_error_witness:
  "\<exists>m. MolFileIndex_init ''a,1\<newline>bb,2\<newline>cc,3\<newline>''
          \<lparr>columns = [(''index'', uint8)], rows = [[0], [4], [9], [14]]\<rparr>
          (ColInt (- 1)) (ColInt (- 1)) False None None = Inr m \<and>
        smilesColIdx m = None \<and> MolFileIndex_getMol m 1 = Inl AttributeError"
proof -
  obtain m where m: "MolFileIndex_init ''a,1\<newline>bb,2\<newline>cc,3\<newline>''
          \<lparr>columns = [(''index'', uint8)], rows = [[0], [4], [9], [14]]\<rparr>
          (ColInt (- 1)) (ColInt (- 1)) False None None = Inr m"
    by (simp add: eval_defs)
  from C10_getMol_attribute_error [OF m] m show ?thesis by blast
qed

end
